theory Spec2Isabelle
  imports Complex_Main
begin

section \<open>The car: drive controller (src/components/Car/Car.tsx)\<close>

text \<open>
  JavaScript numbers are modelled as reals: the controller only stores and compares
  literal constants (\<open>0\<close>, \<open>0.5\<close>, \<open>1000\<close>, \<open>100000\<close>, \<open>5\<close>) and
  \<open>Math.PI\<close>, which is \<open>pi\<close> here.
\<close>

type_synonym vec3 = "real \<times> real \<times> real"

datatype error = TypeError | RangeError

text \<open>
  \<open>chassis.current.api\<close>: the pose operations of the chassis body. Each of
  \<open>position\<close>, \<open>velocity\<close>, \<open>angularVelocity\<close> and \<open>rotation\<close> has a
  \<open>set(x, y, z)\<close>; the record holds the last triple set.
\<close>

record chassis_api =
  position :: vec3
  velocity :: vec3
  angularVelocity :: vec3
  rotation :: vec3

text \<open>
  \<open>useKeyPress\<close> (lines 236 to 264): the flag starts false. The effect registers the two
  handlers only for a controllable car; \<open>keydown\<close> of a target key sets the flag and
  \<open>keyup\<close> of one clears it. The flag after a sequence of key events:
\<close>

datatype key_event = Keydown string | Keyup string

fun handler :: "string list \<Rightarrow> key_event \<Rightarrow> bool \<Rightarrow> bool" where
  "handler target (Keydown key) keyPressed = (if key \<in> set target then True else keyPressed)"
| "handler target (Keyup key) keyPressed = (if key \<in> set target then False else keyPressed)"

definition useKeyPress :: "string list \<Rightarrow> bool \<Rightarrow> key_event list \<Rightarrow> bool" where
  "useKeyPress target controllable events =
     (if \<not> controllable then False else fold (handler target) events False)"

text \<open>
  What the frame callback of one render closes over: the \<open>controllable\<close> prop, the six
  flags returned by \<open>useKeyPress\<close>, the three \<open>useState\<close> values and the
  \<open>chassis\<close> ref, whose \<open>current\<close> is \<open>undefined\<close> (\<open>None\<close>) until a chassis
  object is bound to it.
\<close>

record car =
  controllable :: bool
  forward :: bool
  backward :: bool
  left :: bool
  right :: bool
  brake :: bool
  reset :: bool
  steeringValue :: real
  engineForce :: real
  brakeForce :: real
  chassis :: "chassis_api option"

definition maxSteerVal :: real where
  "maxSteerVal = 0.5"

definition maxForce :: real where
  "maxForce = 1000"

definition maxBrakeForce :: real where
  "maxBrakeForce = 100000"

text \<open>
  The calls the frame callback makes, in program order: the three state setters and the
  four pose setters of the chassis.
\<close>

datatype call =
    SetSteeringValue real
  | SetEngineForce real
  | SetBrakeForce real
  | Position_set real real real
  | Velocity_set real real real
  | AngularVelocity_set real real real
  | Rotation_set real real real

text \<open>
  The body of the \<open>useFrame\<close> callback (lines 131 to 165). Every condition reads the
  values of the render the callback belongs to (the record \<open>c\<close>): a state setter does not
  change what the running callback reads, so the sequence of calls is a function of \<open>c\<close>.
\<close>

definition steering_calls :: "car \<Rightarrow> call list" where
  "steering_calls c =
     (if left c \<and> \<not> right c then [SetSteeringValue maxSteerVal]
      else if right c \<and> \<not> left c then [SetSteeringValue (- maxSteerVal)]
      else [SetSteeringValue 0])"

definition drive_calls :: "car \<Rightarrow> call list" where
  "drive_calls c =
     (if forward c \<and> \<not> backward c then [SetBrakeForce 0, SetEngineForce (- maxForce)]
      else if backward c \<and> \<not> forward c then [SetBrakeForce 0, SetEngineForce maxForce]
      else if engineForce c \<noteq> 0 then [SetEngineForce 0]
      else [])"

definition brake_calls :: "car \<Rightarrow> call list" where
  "brake_calls c =
     (if brake c then [SetBrakeForce maxBrakeForce] else [])
     @ (if \<not> brake c then [SetBrakeForce 0] else [])"

definition reset_calls :: "car \<Rightarrow> call list" where
  "reset_calls c =
     (if reset c
      then [Position_set 0 5 0, Velocity_set 0 0 0,
            AngularVelocity_set 0 0.5 0, Rotation_set 0 (- pi / 4) 0]
      else [])"

definition useFrame_calls :: "car \<Rightarrow> call list" where
  "useFrame_calls c =
     (if \<not> controllable c then []
      else steering_calls c @ drive_calls c @ brake_calls c @ reset_calls c)"

text \<open>
  One call on the state. A state setter stores the value for the next render. A pose
  setter goes through \<open>chassis.current.api\<close>: with \<open>chassis.current\<close> undefined the
  property access raises a \<open>TypeError\<close>.
\<close>

fun exec :: "call \<Rightarrow> car \<Rightarrow> error + car" where
  "exec (SetSteeringValue v) s = Inr (s\<lparr>steeringValue := v\<rparr>)"
| "exec (SetEngineForce v) s = Inr (s\<lparr>engineForce := v\<rparr>)"
| "exec (SetBrakeForce v) s = Inr (s\<lparr>brakeForce := v\<rparr>)"
| "exec (Position_set x y z) s =
     (case chassis s of
        None \<Rightarrow> Inl TypeError
      | Some a \<Rightarrow> Inr (s\<lparr>chassis := Some (a\<lparr>position := (x, y, z)\<rparr>)\<rparr>))"
| "exec (Velocity_set x y z) s =
     (case chassis s of
        None \<Rightarrow> Inl TypeError
      | Some a \<Rightarrow> Inr (s\<lparr>chassis := Some (a\<lparr>velocity := (x, y, z)\<rparr>)\<rparr>))"
| "exec (AngularVelocity_set x y z) s =
     (case chassis s of
        None \<Rightarrow> Inl TypeError
      | Some a \<Rightarrow> Inr (s\<lparr>chassis := Some (a\<lparr>angularVelocity := (x, y, z)\<rparr>)\<rparr>))"
| "exec (Rotation_set x y z) s =
     (case chassis s of
        None \<Rightarrow> Inl TypeError
      | Some a \<Rightarrow> Inr (s\<lparr>chassis := Some (a\<lparr>rotation := (x, y, z)\<rparr>)\<rparr>))"

text \<open>
  The calls run in order; the first exception ends the callback, and what the earlier
  calls did stays done.
\<close>

fun run :: "call list \<Rightarrow> car \<Rightarrow> error option \<times> car" where
  "run [] s = (None, s)"
| "run (x # xs) s =
     (case exec x s of
        Inl e \<Rightarrow> (Some e, s)
      | Inr s' \<Rightarrow> run xs s')"

text \<open>
  One tick: the exception the callback raised, if any, and the state the next render
  sees.
\<close>

definition useFrame :: "car \<Rightarrow> error option \<times> car" where
  "useFrame c = run (useFrame_calls c) c"

text \<open>
  The raycast vehicle of the physics library, as far as the pushes reach it: for each
  wheel index the engine force, the steering value and the brake force applied last. The
  handle of the vehicle is \<open>None\<close> until the physics handles are bound.
\<close>

record vehicle =
  wheel_engineForce :: "nat \<Rightarrow> real"
  wheel_steeringValue :: "nat \<Rightarrow> real"
  wheel_brake :: "nat \<Rightarrow> real"

text \<open>
  Modelled from the spec: the \<open>api\<close> object returned by \<open>useRaycastVehicle\<close> belongs
  to the physics library and is not among the sources. From the spec: it exposes
  \<open>applyEngineForce(force, wheelIndex)\<close>, \<open>setSteeringValue(value, wheelIndex)\<close> and
  \<open>setBrake(force, wheelIndex)\<close>, each setting the value of that wheel; a call made
  before the physics handles are bound is absorbed as a no-op.
\<close>

definition applyEngineForce :: "real \<Rightarrow> nat \<Rightarrow> vehicle option \<Rightarrow> vehicle option" where
  "applyEngineForce force wheelIndex p =
     (case p of
        None \<Rightarrow> None
      | Some w \<Rightarrow> Some (w\<lparr>wheel_engineForce := (wheel_engineForce w)(wheelIndex := force)\<rparr>))"

definition setSteeringValue :: "real \<Rightarrow> nat \<Rightarrow> vehicle option \<Rightarrow> vehicle option" where
  "setSteeringValue v wheelIndex p =
     (case p of
        None \<Rightarrow> None
      | Some w \<Rightarrow> Some (w\<lparr>wheel_steeringValue := (wheel_steeringValue w)(wheelIndex := v)\<rparr>))"

definition setBrake :: "real \<Rightarrow> nat \<Rightarrow> vehicle option \<Rightarrow> vehicle option" where
  "setBrake force wheelIndex p =
     (case p of
        None \<Rightarrow> None
      | Some w \<Rightarrow> Some (w\<lparr>wheel_brake := (wheel_brake w)(wheelIndex := force)\<rparr>))"

text \<open>
  The bodies of the three effects (lines 167 to 181), from the source: the engine force
  goes to wheels 2 and 3, the steering value to wheels 0 and 1, and the brake force to
  every index of \<open>wheels\<close>, which holds the four wheel refs.
\<close>

definition engineForce_effect :: "car \<Rightarrow> vehicle option \<Rightarrow> vehicle option" where
  "engineForce_effect c p =
     applyEngineForce (engineForce c) 3 (applyEngineForce (engineForce c) 2 p)"

definition steeringValue_effect :: "car \<Rightarrow> vehicle option \<Rightarrow> vehicle option" where
  "steeringValue_effect c p =
     setSteeringValue (steeringValue c) 1 (setSteeringValue (steeringValue c) 0 p)"

definition brakeForce_effect :: "car \<Rightarrow> vehicle option \<Rightarrow> vehicle option" where
  "brakeForce_effect c p = fold (\<lambda>i. setBrake (brakeForce c) i) [0..<4] p"

text \<open>
  \<open>useEffect\<close> with its dependency: an effect runs after the first render (\<open>before\<close>
  is \<open>None\<close>) and after every render in which its dependency differs from the one of
  the render before, in the order the effects are written.
\<close>

definition effects :: "car option \<Rightarrow> car \<Rightarrow> vehicle option \<Rightarrow> vehicle option" where
  "effects before c p =
     (let p1 = (if (case before of None \<Rightarrow> True | Some b \<Rightarrow> engineForce b \<noteq> engineForce c)
                then engineForce_effect c p else p);
          p2 = (if (case before of None \<Rightarrow> True | Some b \<Rightarrow> steeringValue b \<noteq> steeringValue c)
                then steeringValue_effect c p1 else p1)
      in if (case before of None \<Rightarrow> True | Some b \<Rightarrow> brakeForce b \<noteq> brakeForce c)
         then brakeForce_effect c p2 else p2)"

text \<open>The pose the reset block sets (lines 157 to 163).\<close>

definition reset_pose :: chassis_api where
  "reset_pose = \<lparr>position = (0, 5, 0), velocity = (0, 0, 0),
     angularVelocity = (0, 0.5, 0), rotation = (0, - pi / 4, 0)\<rparr>"

text \<open>The state setter calls of a call sequence, by field.\<close>

fun steering_sets :: "call list \<Rightarrow> real list" where
  "steering_sets [] = []"
| "steering_sets (SetSteeringValue v # xs) = v # steering_sets xs"
| "steering_sets (_ # xs) = steering_sets xs"

fun engine_sets :: "call list \<Rightarrow> real list" where
  "engine_sets [] = []"
| "engine_sets (SetEngineForce v # xs) = v # engine_sets xs"
| "engine_sets (_ # xs) = engine_sets xs"

fun brake_sets :: "call list \<Rightarrow> real list" where
  "brake_sets [] = []"
| "brake_sets (SetBrakeForce v # xs) = v # brake_sets xs"
| "brake_sets (_ # xs) = brake_sets xs"

section \<open>The sensor ring and the sampler (src/components/world/car/Sensors.tsx)\<close>

text \<open>
  An element of the distance vector: a number, \<open>null\<close> or \<open>undefined\<close>.
\<close>

datatype sensor_value = Number real | Null | Undefined

text \<open>
  \<open>new Array(n).fill(v)\<close> for an integer \<open>n\<close>: the constructor raises a
  \<open>RangeError\<close> for a negative \<open>n\<close>; otherwise the result has \<open>n\<close> elements, all
  \<open>v\<close>. An engine also refuses an array past a size limit of its own (never more than
  \<open>2\<^sup>3\<^sup>2 - 1\<close> elements, and fewer where the elements are stored densely); lists have no
  such limit, and the resources of the engine are outside this model.
\<close>

definition Array_fill :: "int \<Rightarrow> 'a \<Rightarrow> error + 'a list" where
  "Array_fill n v = (if 0 \<le> n then Inr (replicate (nat n) v) else Inl RangeError)"

text \<open>
  \<open>a[index] = v\<close>: inside the array the element is replaced; beyond its end the array
  grows up to \<open>index\<close>, and the elements skipped read as \<open>undefined\<close>. A number from
  \<open>2\<^sup>3\<^sup>2 - 1\<close> on is not an array index: the assignment then leaves the elements
  and the length as they are.
\<close>

definition array_set :: "sensor_value list \<Rightarrow> nat \<Rightarrow> sensor_value \<Rightarrow> sensor_value list" where
  "array_set a index v =
     (if index < length a then a[index := v]
      else if index < 2 ^ 32 - 1 then a @ replicate (index - length a) Undefined @ [v]
      else a)"

text \<open>
  The props of one \<open>SensorRay\<close> element that depend on the ray: \<open>key\<close>, \<open>index\<close>,
  \<open>from\<close>, \<open>to\<close>, \<open>angleX\<close> and \<open>visible\<close>. (\<open>obstacles\<close> and \<open>onRay\<close> are the
  same objects for every ray.)
\<close>

record sensor_ray =
  ray_key :: nat
  ray_index :: nat
  ray_from :: vec3
  ray_to :: vec3
  angleX :: real
  visible :: bool

text \<open>
  The throttle of the publish. \<open>Idle\<close>: no window is open. \<open>Scheduled pending deadline\<close>:
  a window is open until \<open>deadline\<close>, and \<open>pending\<close> tells whether a request arrived
  inside it.
\<close>

datatype timer = Idle | Scheduled bool nat

text \<open>
  The state of a mounted \<open>Sensors\<close> component: the vector \<open>sensorDistances.current\<close>,
  the ray elements, the throttle, and the calls made to the consumer \<open>onSensors\<close> so far,
  oldest first, each with its time (in milliseconds) and the vector as it was at the call.
\<close>

record sensors =
  sensorDistances :: "sensor_value list"
  sensorRays :: "sensor_ray list"
  throttle :: timer
  onSensors_calls :: "(nat \<times> sensor_value list) list"

text \<open>
  \<open>angleStep\<close> (line 52). For \<open>sensorsNum = 0\<close> the quotient is \<open>Infinity\<close> in the
  source and \<open>0\<close> here; no ray is built then, and nothing reads it.
\<close>

definition angleStep :: "int \<Rightarrow> real" where
  "angleStep sensorsNum = 2 * pi / of_int sensorsNum"

text \<open>
  The \<open>SensorRay\<close> element built for \<open>index\<close> (lines 55 to 64). \<open>SENSOR_HEIGHT\<close> and
  \<open>SENSOR_DISTANCE\<close> come from a constants module and are parameters here.
\<close>

definition SensorRay :: "real \<Rightarrow> real \<Rightarrow> bool \<Rightarrow> int \<Rightarrow> nat \<Rightarrow> sensor_ray" where
  "SensorRay SENSOR_HEIGHT SENSOR_DISTANCE visibleSensors sensorsNum index =
     \<lparr>ray_key = index,
      ray_index = index,
      ray_from = (0, SENSOR_HEIGHT, 0),
      ray_to = (0, SENSOR_HEIGHT, SENSOR_DISTANCE),
      angleX = angleStep sensorsNum * of_nat index,
      visible = visibleSensors\<rparr>"

text \<open>
  The body of \<open>Sensors\<close>: first the distance vector (line 20), then the rays (lines 52 to
  66), one per element of \<open>new Array(sensorsNum).fill(null)\<close>, each from its index. An
  exception of either allocation ends the construction.
\<close>

definition Sensors :: "real \<Rightarrow> real \<Rightarrow> bool \<Rightarrow> int \<Rightarrow> error + sensors" where
  "Sensors SENSOR_HEIGHT SENSOR_DISTANCE visibleSensors sensorsNum =
     (case Array_fill sensorsNum Undefined of
        Inl e \<Rightarrow> Inl e
      | Inr distances \<Rightarrow>
          (case Array_fill sensorsNum Null of
             Inl e \<Rightarrow> Inl e
           | Inr slots \<Rightarrow>
               Inr \<lparr>sensorDistances = distances,
                    sensorRays =
                      map (\<lambda>(index, _).
                            SensorRay SENSOR_HEIGHT SENSOR_DISTANCE visibleSensors sensorsNum index)
                        (enumerate 0 slots),
                    throttle = Idle,
                    onSensors_calls = []\<rparr>))"

text \<open>
  \<open>onSensorsCallback\<close> (lines 23 to 25) hands the consumer the vector as it is when the
  call is made.
\<close>

definition onSensorsCallback :: "nat \<Rightarrow> sensors \<Rightarrow> sensors" where
  "onSensorsCallback now s =
     s\<lparr>onSensors_calls := onSensors_calls s @ [(now, sensorDistances s)]\<rparr>"

text \<open>
  Modelled from the spec: \<open>throttle\<close> is imported from lodash and
  \<open>ON_SENSORS_THROTTLE_TIMEOUT\<close> from a constants module; neither is among the sources.
  The source fixes the options \<open>leading: true, trailing: true\<close>; the window \<open>wait\<close> is a
  parameter. From the spec: the publish is limited to once per fixed window; a request
  that finds the throttle idle fires at once (leading edge) and opens a window; a request
  inside an open window is remembered, and fires once at the end of the window (trailing
  edge), which opens the next window.
\<close>

definition onSensorsCallbackThrottled :: "nat \<Rightarrow> nat \<Rightarrow> sensors \<Rightarrow> sensors" where
  "onSensorsCallbackThrottled wait now s =
     (case throttle s of
        Idle \<Rightarrow> (onSensorsCallback now s)\<lparr>throttle := Scheduled False (now + wait)\<rparr>
      | Scheduled pending deadline \<Rightarrow> s\<lparr>throttle := Scheduled True deadline\<rparr>)"

text \<open>
  Modelled from the spec: the deferred timer callback of the throttle, as the host's timer
  facility runs it once the time \<open>now\<close> has reached the deadline. A pending request
  fires at the deadline; without one the throttle falls idle.
\<close>

definition timer_due :: "nat \<Rightarrow> nat \<Rightarrow> sensors \<Rightarrow> sensors" where
  "timer_due wait now s =
     (case throttle s of
        Idle \<Rightarrow> s
      | Scheduled pending deadline \<Rightarrow>
          if now < deadline then s
          else if pending then
            (onSensorsCallback deadline s)
              \<lparr>throttle := (if now < deadline + wait then Scheduled False (deadline + wait)
                             else Idle)\<rparr>
          else s\<lparr>throttle := Idle\<rparr>)"

text \<open>
  \<open>onRay\<close> (lines 32 to 37): the element of the ray is written, a number as it is and
  anything else as \<open>null\<close>; then the throttled publish is called.
\<close>

definition onRay :: "nat \<Rightarrow> nat \<Rightarrow> nat \<Rightarrow> real option \<Rightarrow> sensors \<Rightarrow> sensors" where
  "onRay wait now index distance s =
     onSensorsCallbackThrottled wait now
       (s\<lparr>sensorDistances :=
            array_set (sensorDistances s) index
              (case distance of Some d \<Rightarrow> Number d | None \<Rightarrow> Null)\<rparr>)"

text \<open>
  The rays report through \<open>onRay\<close>, one report at a time. A report is the time, the index
  of the ray and the distance it measured (\<open>None\<close> for no hit). Before a report runs, the
  timer that is due by then has run.
\<close>

type_synonym report = "nat \<times> nat \<times> real option"

fun sample :: "nat \<Rightarrow> report list \<Rightarrow> sensors \<Rightarrow> sensors" where
  "sample wait [] s = s"
| "sample wait ((now, index, distance) # rs) s =
     sample wait rs (onRay wait now index distance (timer_due wait now s))"

text \<open>Consecutive times are at least one window apart.\<close>

fun spaced :: "nat \<Rightarrow> nat list \<Rightarrow> bool" where
  "spaced w (a # b # ts) = (a + w \<le> b \<and> spaced w (b # ts))"
| "spaced w _ = True"

text \<open>
  A later render of the mounted component: the body of \<open>Sensors\<close> runs again. \<open>useRef\<close>
  returns the ref made by the first render, so the vector stays as it is (the array
  allocated for the argument of \<open>useRef\<close> is dropped); the rays are built again, and so
  is the throttle (line 27 stands in the body), over which the new \<open>onRay\<close> closes. The
  calls the consumer has received so far stay received. \<open>rerender\<close> gives the state of
  the new render. A request still pending in the throttle of the render before keeps the
  timer of that throttle: \<open>left_pending\<close> is its deadline, which \<open>live\<close> below carries
  along.
\<close>

definition rerender :: "real \<Rightarrow> real \<Rightarrow> bool \<Rightarrow> int \<Rightarrow> sensors \<Rightarrow> error + sensors" where
  "rerender SENSOR_HEIGHT SENSOR_DISTANCE visibleSensors sensorsNum s =
     (case Sensors SENSOR_HEIGHT SENSOR_DISTANCE visibleSensors sensorsNum of
        Inl e \<Rightarrow> Inl e
      | Inr fresh \<Rightarrow>
          Inr (fresh\<lparr>sensorDistances := sensorDistances s,
                     onSensors_calls := onSensors_calls s\<rparr>))"

definition left_pending :: "sensors \<Rightarrow> nat list" where
  "left_pending s =
     (case throttle s of
        Idle \<Rightarrow> []
      | Scheduled pending deadline \<Rightarrow> if pending then [deadline] else [])"

text \<open>
  The component over its renders: the state of the current render, and the deadlines of
  the requests pending in the throttles of earlier renders, oldest first. The timer of
  such a throttle still fires at its deadline and calls the consumer with the vector as
  it is then; no report reaches that throttle any more. (A throttle of an earlier render
  has opened its window no later than the current one, so its timer comes first.)
\<close>

type_synonym mounted = "sensors \<times> nat list"

definition timers_due :: "nat \<Rightarrow> nat \<Rightarrow> mounted \<Rightarrow> mounted" where
  "timers_due wait now m =
     (case m of
        (s, earlier) \<Rightarrow>
          (timer_due wait now (fold onSensorsCallback (filter (\<lambda>d. d \<le> now) earlier) s),
           filter (\<lambda>d. now < d) earlier))"

text \<open>
  What happens to a mounted component: a ray reports (time, index, distance), or the
  component renders again (time and props). Before either, the timers due by then have
  run. A render that raises ends the run.
\<close>

datatype event = Report nat nat "real option" | Render nat real real bool int

fun live :: "nat \<Rightarrow> event list \<Rightarrow> mounted \<Rightarrow> error option \<times> mounted" where
  "live wait [] m = (None, m)"
| "live wait (Report now index distance # es) m =
     (case timers_due wait now m of
        (s, earlier) \<Rightarrow> live wait es (onRay wait now index distance s, earlier))"
| "live wait (Render now SENSOR_HEIGHT SENSOR_DISTANCE visibleSensors sensorsNum # es) m =
     (case timers_due wait now m of
        (s, earlier) \<Rightarrow>
          (case rerender SENSOR_HEIGHT SENSOR_DISTANCE visibleSensors sensorsNum s of
             Inl e \<Rightarrow> (Some e, (s, earlier))
           | Inr s' \<Rightarrow> live wait es (s', earlier @ left_pending s)))"


text \<open>
  The vector after the writes of a sequence of reports, in order: what \<open>onRay\<close> does to
  \<open>sensorDistances.current\<close>, without the publish.
\<close>

fun written :: "report list \<Rightarrow> sensor_value list \<Rightarrow> sensor_value list" where
  "written [] a = a"
| "written ((now, index, distance) # rs) a =
     written rs (array_set a index (case distance of Some d \<Rightarrow> Number d | None \<Rightarrow> Null))"


text \<open>
  The invariant of the throttle at time \<open>t\<close>: the calls made so far are one window apart;
  an open window ends one window after the last call; and an idle throttle has made its
  last call at least one window ago.
\<close>

definition throttle_inv :: "nat \<Rightarrow> nat \<Rightarrow> sensors \<Rightarrow> bool" where
  "throttle_inv wait t s =
     (spaced wait (map fst (onSensors_calls s))
      \<and> (case throttle s of
            Idle \<Rightarrow> onSensors_calls s = [] \<or> last (map fst (onSensors_calls s)) + wait \<le> t
          | Scheduled pending deadline \<Rightarrow>
              onSensors_calls s \<noteq> [] \<and> last (map fst (onSensors_calls s)) + wait = deadline))"

section \<open>Properties of the drive controller\<close>

text \<open>
  No key is ever held on a car that is not controllable, so the ticks on which a flag is
  set are ticks of a controllable car.
\<close>

lemma useKeyPress_passive: "\<not> useKeyPress target False events"
  by (simp add: useKeyPress_def)

lemma useKeyPress_last:
  "useKeyPress [''w'', ''ArrowUp''] True [Keydown ''w'', Keyup ''a'', Keydown ''s''] = True"
  "useKeyPress [''w'', ''ArrowUp''] True [Keydown ''w'', Keyup ''ArrowUp''] = False"
  by (simp_all add: useKeyPress_def)

lemma steering_sets_append: "steering_sets (xs @ ys) = steering_sets xs @ steering_sets ys"
  by (induction xs rule: steering_sets.induct) simp_all

lemma engine_sets_append: "engine_sets (xs @ ys) = engine_sets xs @ engine_sets ys"
  by (induction xs rule: engine_sets.induct) simp_all

lemma brake_sets_append: "brake_sets (xs @ ys) = brake_sets xs @ brake_sets ys"
  by (induction xs rule: brake_sets.induct) simp_all

lemma run_append:
  "run (xs @ ys) s = (case run xs s of (None, s') \<Rightarrow> run ys s' | (Some e, s') \<Rightarrow> (Some e, s'))"
  by (induction xs arbitrary: s) (simp_all split: sum.splits)

lemma run_steering_calls: "run (steering_calls c) s =
  (None, s\<lparr>steeringValue := (if left c \<and> \<not> right c then maxSteerVal
            else if right c \<and> \<not> left c then - maxSteerVal else 0)\<rparr>)"
  by (simp add: steering_calls_def)

lemma run_drive_calls: "run (drive_calls c) s =
  (None, if forward c \<and> \<not> backward c then s\<lparr>brakeForce := 0, engineForce := - maxForce\<rparr>
         else if backward c \<and> \<not> forward c then s\<lparr>brakeForce := 0, engineForce := maxForce\<rparr>
         else if engineForce c \<noteq> 0 then s\<lparr>engineForce := 0\<rparr> else s)"
  by (simp add: drive_calls_def)

lemma run_brake_calls: "run (brake_calls c) s =
  (None, s\<lparr>brakeForce := (if brake c then maxBrakeForce else 0)\<rparr>)"
  by (simp add: brake_calls_def)

lemma run_reset_calls: "run (reset_calls c) s =
  (if reset c then (case chassis s of None \<Rightarrow> (Some TypeError, s)
       | Some a \<Rightarrow> (None, s\<lparr>chassis := Some reset_pose\<rparr>))
   else (None, s))"
  by (simp add: reset_calls_def reset_pose_def split: option.splits)

lemma useFrame_eq:
  "useFrame c =
     (if \<not> controllable c then (None, c)
      else run (reset_calls c)
             (snd (run (brake_calls c) (snd (run (drive_calls c) (snd (run (steering_calls c) c)))))))"
  by (simp add: useFrame_def useFrame_calls_def run_append run_steering_calls run_drive_calls
      run_brake_calls)

lemmas tick_simps = useFrame_eq run_steering_calls run_drive_calls run_brake_calls
  run_reset_calls

lemma reset_calls_keep:
  "steeringValue (snd (run (reset_calls c) s)) = steeringValue s"
  "engineForce (snd (run (reset_calls c) s)) = engineForce s"
  "brakeForce (snd (run (reset_calls c) s)) = brakeForce s"
  by (simp_all add: run_reset_calls split: option.splits)

lemma useFrame_steeringValue:
  "controllable d \<Longrightarrow> steeringValue (snd (useFrame d)) =
     (if left d \<and> \<not> right d then maxSteerVal
      else if right d \<and> \<not> left d then - maxSteerVal else 0)"
  by (simp add: useFrame_eq reset_calls_keep run_steering_calls run_drive_calls run_brake_calls)

lemma useFrame_engineForce:
  "controllable d \<Longrightarrow> engineForce (snd (useFrame d)) =
     (if forward d \<and> \<not> backward d then - maxForce
      else if backward d \<and> \<not> forward d then maxForce else 0)"
  by (simp add: useFrame_eq reset_calls_keep run_steering_calls run_drive_calls run_brake_calls)

lemma useFrame_brakeForce:
  "controllable d \<Longrightarrow> brakeForce (snd (useFrame d)) =
     (if brake d then maxBrakeForce else 0)"
  by (simp add: useFrame_eq reset_calls_keep run_steering_calls run_drive_calls run_brake_calls)

text \<open>
  C7: on a tick of a controllable car the callback makes exactly one steering call, and
  the steering value the tick leaves is \<open>+maxSteerVal\<close> for left without right,
  \<open>-maxSteerVal\<close> for right without left and \<open>0\<close> otherwise; in particular \<open>0\<close>
  when both are held.
\<close>

theorem steering_output:
  assumes "controllable c"
  shows "steering_sets (useFrame_calls c) =
           [if left c \<and> \<not> right c then maxSteerVal
            else if right c \<and> \<not> left c then - maxSteerVal
            else 0]
         \<and> steeringValue (snd (useFrame c)) =
             (if left c \<and> \<not> right c then maxSteerVal
              else if right c \<and> \<not> left c then - maxSteerVal
              else 0)
         \<and> (left c \<and> right c \<longrightarrow> steeringValue (snd (useFrame c)) = 0)"
proof -
  have calls: "steering_sets (useFrame_calls c) =
      [if left c \<and> \<not> right c then maxSteerVal
       else if right c \<and> \<not> left c then - maxSteerVal else 0]"
    using assms
    by (simp add: useFrame_calls_def steering_sets_append steering_calls_def drive_calls_def
        brake_calls_def reset_calls_def)
  have state: "steeringValue (snd (useFrame c)) =
      (if left c \<and> \<not> right c then maxSteerVal
       else if right c \<and> \<not> left c then - maxSteerVal else 0)"
    using assms by (rule useFrame_steeringValue)
  from calls state show ?thesis by simp
qed

theorem steering_output_witness:
  "steeringValue (snd (useFrame \<lparr>controllable = True, forward = False, backward = False,
      left = True, right = True, brake = False, reset = False, steeringValue = 0.5,
      engineForce = 0, brakeForce = 0, chassis = None\<rparr>)) = 0
   \<and> steeringValue (snd (useFrame \<lparr>controllable = True, forward = False, backward = False,
      left = False, right = True, brake = False, reset = False, steeringValue = 0,
      engineForce = 0, brakeForce = 0, chassis = None\<rparr>)) = - 0.5"
  using steering_output [of "\<lparr>controllable = True, forward = False, backward = False,
      left = True, right = True, brake = False, reset = False, steeringValue = 0.5,
      engineForce = 0, brakeForce = 0, chassis = None\<rparr>"]
    steering_output [of "\<lparr>controllable = True, forward = False, backward = False,
      left = False, right = True, brake = False, reset = False, steeringValue = 0,
      engineForce = 0, brakeForce = 0, chassis = None\<rparr>"]
  by (simp add: maxSteerVal_def)

text \<open>
  C8: at the end of a tick of a controllable car the brake force is \<open>maxBrakeForce\<close>
  when the brake flag is held and \<open>0\<close> when it is not (the value of the last brake call
  of the tick, which follows the \<open>setBrakeForce(0)\<close> of a drive branch); two ticks with
  the same brake flag end with the same brake force, whatever their drive and steer flags
  and their earlier state.
\<close>

theorem brake_output:
  assumes "controllable c" and "controllable c'" and "brake c' = brake c"
  shows "brakeForce (snd (useFrame c)) = (if brake c then maxBrakeForce else 0)
         \<and> last (brake_sets (useFrame_calls c)) = (if brake c then maxBrakeForce else 0)
         \<and> brakeForce (snd (useFrame c')) = brakeForce (snd (useFrame c))"
proof -
  have calls: "last (brake_sets (useFrame_calls c)) = (if brake c then maxBrakeForce else 0)"
    using assms(1)
    by (simp add: useFrame_calls_def brake_sets_append steering_calls_def drive_calls_def
        brake_calls_def reset_calls_def)
  from useFrame_brakeForce [OF assms(1)] useFrame_brakeForce [OF assms(2)] assms(3) calls
  show ?thesis by simp
qed

theorem brake_output_witness:
  "brakeForce (snd (useFrame \<lparr>controllable = True, forward = True, backward = False,
      left = False, right = True, brake = True, reset = False, steeringValue = 0,
      engineForce = 0, brakeForce = 0, chassis = None\<rparr>)) = 100000
   \<and> brakeForce (snd (useFrame \<lparr>controllable = True, forward = False, backward = True,
      left = True, right = False, brake = True, reset = False, steeringValue = 0,
      engineForce = 1000, brakeForce = 0, chassis = None\<rparr>)) = 100000"
  using brake_output [of "\<lparr>controllable = True, forward = True, backward = False,
      left = False, right = True, brake = True, reset = False, steeringValue = 0,
      engineForce = 0, brakeForce = 0, chassis = None\<rparr>"
    "\<lparr>controllable = True, forward = False, backward = True,
      left = True, right = False, brake = True, reset = False, steeringValue = 0,
      engineForce = 1000, brakeForce = 0, chassis = None\<rparr>"]
  by (simp add: maxBrakeForce_def)

text \<open>
  C2: on a tick of a controllable car, forward without backward sets the engine force to
  \<open>-maxForce\<close> and backward without forward to \<open>+maxForce\<close>. On any other tick
  (both or neither held) the callback sets the force to \<open>0\<close> exactly when the force it
  reads is not \<open>0\<close>. So on the first tick after the inputs neutralize (any next render
  \<open>c'\<close> that carries the force a driving tick left) the callback still reads a nonzero
  force and issues the clearing call, and the force reads \<open>0\<close> from the tick after.
\<close>

theorem engine_force_drive:
  assumes "controllable c"
  shows "(forward c \<and> \<not> backward c \<longrightarrow>
            engine_sets (useFrame_calls c) = [- maxForce]
            \<and> engineForce (snd (useFrame c)) = - maxForce)
         \<and> (backward c \<and> \<not> forward c \<longrightarrow>
            engine_sets (useFrame_calls c) = [maxForce]
            \<and> engineForce (snd (useFrame c)) = maxForce)
         \<and> (forward c = backward c \<longrightarrow>
            engine_sets (useFrame_calls c) = (if engineForce c \<noteq> 0 then [0] else [])
            \<and> engineForce (snd (useFrame c)) = 0)
         \<and> (forward c \<noteq> backward c \<and> controllable c' \<and> forward c' = backward c'
              \<and> engineForce c' = engineForce (snd (useFrame c)) \<longrightarrow>
            engineForce c' \<noteq> 0
            \<and> engine_sets (useFrame_calls c') = [0]
            \<and> engineForce (snd (useFrame c')) = 0)"
proof -
  have calls: "engine_sets (useFrame_calls d) =
      (if forward d \<and> \<not> backward d then [- maxForce]
       else if backward d \<and> \<not> forward d then [maxForce]
       else if engineForce d \<noteq> 0 then [0] else [])"
    if "controllable d" for d
    using that
    by (simp add: useFrame_calls_def engine_sets_append steering_calls_def drive_calls_def
        brake_calls_def reset_calls_def)
  have state: "engineForce (snd (useFrame d)) =
      (if forward d \<and> \<not> backward d then - maxForce
       else if backward d \<and> \<not> forward d then maxForce
       else 0)"
    if "controllable d" for d
    using that by (rule useFrame_engineForce)
  have nz: "maxForce \<noteq> 0"
    by (simp add: maxForce_def)
  have drive: "forward c \<noteq> backward c \<Longrightarrow> engineForce (snd (useFrame c)) \<noteq> 0"
    using state [OF assms] nz by auto
  have lag: "engineForce c' \<noteq> 0 \<and> engine_sets (useFrame_calls c') = [0]
      \<and> engineForce (snd (useFrame c')) = 0"
    if "forward c \<noteq> backward c" and "controllable c'" and "forward c' = backward c'"
      and "engineForce c' = engineForce (snd (useFrame c))"
    using drive [OF that(1)] calls [OF that(2)] state [OF that(2)] that(3,4) by auto
  from calls [OF assms] state [OF assms] lag show ?thesis
    by auto
qed

theorem engine_force_drive_witness:
  "engineForce (snd (useFrame \<lparr>controllable = True, forward = True, backward = False,
      left = False, right = False, brake = False, reset = False, steeringValue = 0,
      engineForce = 0, brakeForce = 0, chassis = None\<rparr>)) = - 1000
   \<and> engine_sets (useFrame_calls \<lparr>controllable = True, forward = False, backward = False,
      left = False, right = False, brake = False, reset = False, steeringValue = 0,
      engineForce = - 1000, brakeForce = 0, chassis = None\<rparr>) = [0]
   \<and> engineForce (snd (useFrame \<lparr>controllable = True, forward = False, backward = False,
      left = False, right = False, brake = False, reset = False, steeringValue = 0,
      engineForce = - 1000, brakeForce = 0, chassis = None\<rparr>)) = 0"
  using engine_force_drive [of "\<lparr>controllable = True, forward = True, backward = False,
      left = False, right = False, brake = False, reset = False, steeringValue = 0,
      engineForce = 0, brakeForce = 0, chassis = None\<rparr>"
    "\<lparr>controllable = True, forward = False, backward = False,
      left = False, right = False, brake = False, reset = False, steeringValue = 0,
      engineForce = - 1000, brakeForce = 0, chassis = None\<rparr>"]
  by (simp add: maxForce_def)

lemma useFrame_reset_bound:
  assumes "controllable d" and "reset d" and "chassis d = Some a"
  shows "fst (useFrame d) = None" and "chassis (snd (useFrame d)) = Some reset_pose"
  using assms by (simp_all add: tick_simps)

lemma useFrame_reset_unbound:
  assumes "controllable d" and "reset d" and "chassis d = None"
  shows "fst (useFrame d) = Some TypeError" and "chassis (snd (useFrame d)) = None"
  using assms by (simp_all add: tick_simps)

text \<open>
  C6 as stated fails: on a tick with reset held and the chassis unbound the callback
  raises and no pose is set.
\<close>

theorem reset_without_chassis_counterexample:
  "fst (useFrame \<lparr>controllable = True, forward = True, backward = False,
      left = False, right = True, brake = False, reset = True, steeringValue = 0.5,
      engineForce = 1000, brakeForce = 0, chassis = None\<rparr>) = Some TypeError
   \<and> chassis (snd (useFrame \<lparr>controllable = True, forward = True, backward = False,
      left = False, right = True, brake = False, reset = True, steeringValue = 0.5,
      engineForce = 1000, brakeForce = 0, chassis = None\<rparr>)) = None"
  by (simp add: tick_simps)

text \<open>
  C6, as amended: on a tick of a controllable car with reset held and the chassis bound,
  whatever the earlier pose, the callback raises nothing and leaves the chassis at position
  \<open>(0, 5, 0)\<close>, velocity \<open>(0, 0, 0)\<close>, angular velocity \<open>(0, 0.5, 0)\<close> and rotation
  \<open>(0, -pi/4, 0)\<close>. The reset adds these four pose calls to the calls of the same tick
  without reset and nothing else: steering value, engine force and brake force end as
  they do without reset.
\<close>

theorem reset_pose_set:
  assumes "controllable c" and "reset c" and "chassis c = Some a"
  shows "fst (useFrame c) = None
         \<and> chassis (snd (useFrame c)) =
             Some \<lparr>position = (0, 5, 0), velocity = (0, 0, 0),
                   angularVelocity = (0, 0.5, 0), rotation = (0, - pi / 4, 0)\<rparr>
         \<and> useFrame_calls c =
             useFrame_calls (c\<lparr>reset := False\<rparr>)
             @ [Position_set 0 5 0, Velocity_set 0 0 0,
                AngularVelocity_set 0 0.5 0, Rotation_set 0 (- pi / 4) 0]
         \<and> steeringValue (snd (useFrame c)) = steeringValue (snd (useFrame (c\<lparr>reset := False\<rparr>)))
         \<and> engineForce (snd (useFrame c)) = engineForce (snd (useFrame (c\<lparr>reset := False\<rparr>)))
         \<and> brakeForce (snd (useFrame c)) = brakeForce (snd (useFrame (c\<lparr>reset := False\<rparr>)))"
proof -
  have err: "fst (useFrame c) = None"
    using assms by (rule useFrame_reset_bound)
  have pose: "chassis (snd (useFrame c)) = Some reset_pose"
    using assms by (rule useFrame_reset_bound)
  have calls: "useFrame_calls c =
      useFrame_calls (c\<lparr>reset := False\<rparr>)
      @ [Position_set 0 5 0, Velocity_set 0 0 0,
         AngularVelocity_set 0 0.5 0, Rotation_set 0 (- pi / 4) 0]"
    using assms
    by (simp add: useFrame_calls_def steering_calls_def drive_calls_def brake_calls_def
        reset_calls_def)
  have steer: "steeringValue (snd (useFrame c)) =
      steeringValue (snd (useFrame (c\<lparr>reset := False\<rparr>)))"
    using assms by (simp add: useFrame_steeringValue)
  have engine: "engineForce (snd (useFrame c)) =
      engineForce (snd (useFrame (c\<lparr>reset := False\<rparr>)))"
    using assms by (simp add: useFrame_engineForce)
  have brk: "brakeForce (snd (useFrame c)) =
      brakeForce (snd (useFrame (c\<lparr>reset := False\<rparr>)))"
    using assms by (simp add: useFrame_brakeForce)
  from err pose calls steer engine brk show ?thesis
    by (simp add: reset_pose_def)
qed

theorem reset_pose_set_witness:
  "chassis (snd (useFrame \<lparr>controllable = True, forward = True, backward = False,
      left = False, right = False, brake = False, reset = True, steeringValue = 0.5,
      engineForce = 0, brakeForce = 100000,
      chassis = Some \<lparr>position = (3, 1, 4), velocity = (1, 5, 9),
        angularVelocity = (2, 6, 5), rotation = (3, 5, 8)\<rparr>\<rparr>)) =
     Some \<lparr>position = (0, 5, 0), velocity = (0, 0, 0),
           angularVelocity = (0, 0.5, 0), rotation = (0, - pi / 4, 0)\<rparr>
   \<and> engineForce (snd (useFrame \<lparr>controllable = True, forward = True, backward = False,
      left = False, right = False, brake = False, reset = True, steeringValue = 0.5,
      engineForce = 0, brakeForce = 100000,
      chassis = Some \<lparr>position = (3, 1, 4), velocity = (1, 5, 9),
        angularVelocity = (2, 6, 5), rotation = (3, 5, 8)\<rparr>\<rparr>)) = - 1000"
  using reset_pose_set [of "\<lparr>controllable = True, forward = True, backward = False,
      left = False, right = False, brake = False, reset = True, steeringValue = 0.5,
      engineForce = 0, brakeForce = 100000,
      chassis = Some \<lparr>position = (3, 1, 4), velocity = (1, 5, 9),
        angularVelocity = (2, 6, 5), rotation = (3, 5, 8)\<rparr>\<rparr>"
      "\<lparr>position = (3, 1, 4), velocity = (1, 5, 9),
        angularVelocity = (2, 6, 5), rotation = (3, 5, 8)\<rparr>"]
  by (simp add: useFrame_engineForce maxForce_def)

lemma exec_flags:
  "exec x s = Inr s' \<Longrightarrow> controllable s' = controllable s \<and> reset s' = reset s"
  by (cases x) (auto split: option.splits)

lemma run_flags:
  "controllable (snd (run xs s)) = controllable s \<and> reset (snd (run xs s)) = reset s"
proof (induction xs arbitrary: s)
  case Nil
  show ?case by simp
next
  case (Cons x xs)
  show ?case
  proof (cases "exec x s")
    case (Inl e)
    then show ?thesis by simp
  next
    case (Inr s')
    with Cons.IH [of s'] exec_flags [OF Inr] show ?thesis by simp
  qed
qed

text \<open>
  C5 as stated fails: with the chassis unbound and reset held, the tick raises.
\<close>

theorem reset_before_bound_counterexample:
  "fst (useFrame \<lparr>controllable = True, forward = False, backward = False,
      left = False, right = False, brake = False, reset = True, steeringValue = 0,
      engineForce = 0, brakeForce = 0, chassis = None\<rparr>) = Some TypeError"
  by (simp add: tick_simps)

lemma effects_unbound: "effects before c None = None"
  by (simp add: effects_def engineForce_effect_def steeringValue_effect_def
      brakeForce_effect_def applyEngineForce_def setSteeringValue_def setBrake_def upt_rec)

lemma engineForce_effect_bound:
  "engineForce_effect c (Some w) =
     Some (w\<lparr>wheel_engineForce :=
               (wheel_engineForce w)(2 := engineForce c, 3 := engineForce c)\<rparr>)"
  by (simp add: engineForce_effect_def applyEngineForce_def)

lemma steeringValue_effect_bound:
  "steeringValue_effect c (Some w) =
     Some (w\<lparr>wheel_steeringValue :=
               (wheel_steeringValue w)(0 := steeringValue c, 1 := steeringValue c)\<rparr>)"
  by (simp add: steeringValue_effect_def setSteeringValue_def)

lemma brakeForce_effect_bound:
  "brakeForce_effect c (Some w) =
     Some (w\<lparr>wheel_brake :=
               (wheel_brake w)(0 := brakeForce c, 1 := brakeForce c, 2 := brakeForce c,
                 3 := brakeForce c)\<rparr>)"
  by (simp add: brakeForce_effect_def setBrake_def upt_rec numeral_2_eq_2 numeral_3_eq_3)

text \<open>
  C5, as amended: an engine-force, steering or brake push made before the physics handles
  are bound is absorbed as a no-op by the api (as the spec describes the api) and raises
  nothing, and once the handles are bound the pushes take effect: the engine force on
  wheels 2 and 3, the steering value on wheels 0 and 1, the brake force on wheels 0 to 3.
  A reset made before the chassis is bound is not absorbed: on that tick of a controllable
  car the first pose call raises a \<open>TypeError\<close> and no pose is written. Once a chassis
  is bound, the next tick with reset raises nothing and sets the reset pose.
\<close>

theorem unbound_handles:
  assumes "controllable c" and "reset c"
  shows "effects before d None = None
         \<and> engineForce_effect d (Some w) =
             Some (w\<lparr>wheel_engineForce :=
                       (wheel_engineForce w)(2 := engineForce d, 3 := engineForce d)\<rparr>)
         \<and> steeringValue_effect d (Some w) =
             Some (w\<lparr>wheel_steeringValue :=
                       (wheel_steeringValue w)(0 := steeringValue d, 1 := steeringValue d)\<rparr>)
         \<and> brakeForce_effect d (Some w) =
             Some (w\<lparr>wheel_brake :=
                       (wheel_brake w)(0 := brakeForce d, 1 := brakeForce d,
                         2 := brakeForce d, 3 := brakeForce d)\<rparr>)
         \<and> (chassis c = None \<longrightarrow>
              fst (useFrame c) = Some TypeError \<and> chassis (snd (useFrame c)) = None)
         \<and> fst (useFrame ((snd (useFrame c))\<lparr>chassis := Some a\<rparr>)) = None
         \<and> chassis (snd (useFrame ((snd (useFrame c))\<lparr>chassis := Some a\<rparr>))) =
             Some \<lparr>position = (0, 5, 0), velocity = (0, 0, 0),
                   angularVelocity = (0, 0.5, 0), rotation = (0, - pi / 4, 0)\<rparr>"
proof -
  have raised: "chassis c = None \<longrightarrow>
      fst (useFrame c) = Some TypeError \<and> chassis (snd (useFrame c)) = None"
    using useFrame_reset_unbound [OF assms] by simp
  let ?d = "(snd (useFrame c))\<lparr>chassis := Some a\<rparr>"
  have "controllable ?d" and "reset ?d"
    using assms run_flags [of "useFrame_calls c" c] by (simp_all add: useFrame_def)
  moreover have "chassis ?d = Some a"
    by simp
  ultimately have healed: "fst (useFrame ?d) = None"
    "chassis (snd (useFrame ?d)) = Some reset_pose"
    by (rule useFrame_reset_bound)+
  from healed(2) have pose: "chassis (snd (useFrame ?d)) =
      Some \<lparr>position = (0, 5, 0), velocity = (0, 0, 0),
            angularVelocity = (0, 0.5, 0), rotation = (0, - pi / 4, 0)\<rparr>"
    by (simp add: reset_pose_def)
  show ?thesis
    by (intro conjI effects_unbound engineForce_effect_bound steeringValue_effect_bound
        brakeForce_effect_bound raised healed(1) pose)
qed

theorem unbound_handles_witness:
  "fst (useFrame \<lparr>controllable = True, forward = True, backward = False,
      left = False, right = False, brake = False, reset = True, steeringValue = 0,
      engineForce = 0, brakeForce = 0, chassis = None\<rparr>) = Some TypeError
   \<and> effects None \<lparr>controllable = True, forward = True, backward = False,
      left = False, right = False, brake = False, reset = False, steeringValue = 0.5,
      engineForce = - 1000, brakeForce = 0, chassis = None\<rparr> None = None
   \<and> engineForce_effect \<lparr>controllable = True, forward = True, backward = False,
      left = False, right = False, brake = False, reset = False, steeringValue = 0.5,
      engineForce = - 1000, brakeForce = 0, chassis = None\<rparr>
       (Some \<lparr>wheel_engineForce = (\<lambda>i. 0), wheel_steeringValue = (\<lambda>i. 0),
          wheel_brake = (\<lambda>i. 0)\<rparr>) =
      Some \<lparr>wheel_engineForce = (\<lambda>i. 0)(2 := - 1000, 3 := - 1000),
           wheel_steeringValue = (\<lambda>i. 0), wheel_brake = (\<lambda>i. 0)\<rparr>
   \<and> chassis (snd (useFrame ((snd (useFrame \<lparr>controllable = True, forward = True,
      backward = False, left = False, right = False, brake = False, reset = True,
      steeringValue = 0, engineForce = 0, brakeForce = 0, chassis = None\<rparr>))
        \<lparr>chassis := Some \<lparr>position = (3, 1, 4), velocity = (1, 5, 9),
          angularVelocity = (2, 6, 5), rotation = (3, 5, 8)\<rparr>\<rparr>))) =
      Some \<lparr>position = (0, 5, 0), velocity = (0, 0, 0),
            angularVelocity = (0, 0.5, 0), rotation = (0, - pi / 4, 0)\<rparr>"
  using unbound_handles [of "\<lparr>controllable = True, forward = True, backward = False,
      left = False, right = False, brake = False, reset = True, steeringValue = 0,
      engineForce = 0, brakeForce = 0, chassis = None\<rparr>"
      None
      "\<lparr>controllable = True, forward = True, backward = False,
      left = False, right = False, brake = False, reset = False, steeringValue = 0.5,
      engineForce = - 1000, brakeForce = 0, chassis = None\<rparr>"
      "\<lparr>wheel_engineForce = (\<lambda>i. 0), wheel_steeringValue = (\<lambda>i. 0),
          wheel_brake = (\<lambda>i. 0)\<rparr>"
      "\<lparr>position = (3, 1, 4), velocity = (1, 5, 9),
          angularVelocity = (2, 6, 5), rotation = (3, 5, 8)\<rparr>"]
  by simp

section \<open>Properties of the sensor ring\<close>

lemma Sensors_ok:
  assumes "0 \<le> sensorsNum"
  shows "Sensors H D v sensorsNum =
    Inr \<lparr>sensorDistances = replicate (nat sensorsNum) Undefined,
         sensorRays = map (SensorRay H D v sensorsNum) [0..<nat sensorsNum],
         throttle = Idle, onSensors_calls = []\<rparr>"
  using assms
  by (simp add: Sensors_def Array_fill_def enumerate_replicate_eq comp_def)

lemma Sensors_negative:
  assumes "sensorsNum < 0"
  shows "Array_fill sensorsNum Undefined = Inl RangeError"
    and "Sensors H D v sensorsNum = Inl RangeError"
  using assms by (simp_all add: Sensors_def Array_fill_def)

text \<open>
  C3 as stated fails at \<open>sensorsNum = 0\<close>: the construction raises nothing and returns
  an empty ring.
\<close>

theorem sensors_zero_counterexample:
  "Sensors 1 10 False 0 =
     Inr \<lparr>sensorDistances = [], sensorRays = [], throttle = Idle, onSensors_calls = []\<rparr>"
  by (simp add: Sensors_ok)

text \<open>
  C3, as amended: for every \<open>sensorsNum < 0\<close> the construction raises a \<open>RangeError\<close>,
  and it is the allocation of the distance vector that raises it, before any ray is
  built; for \<open>sensorsNum = 0\<close> the construction raises nothing and returns an empty
  vector and no ray. In both cases no ray exists afterwards.
\<close>

theorem sensors_nonpositive:
  assumes "sensorsNum \<le> 0"
  shows "(sensorsNum < 0 \<longrightarrow>
            Array_fill sensorsNum Undefined = Inl RangeError
            \<and> Sensors H D v sensorsNum = Inl RangeError)
         \<and> (sensorsNum = 0 \<longrightarrow>
            Sensors H D v sensorsNum =
              Inr \<lparr>sensorDistances = [], sensorRays = [], throttle = Idle,
                   onSensors_calls = []\<rparr>)
         \<and> (\<forall>s. Sensors H D v sensorsNum = Inr s \<longrightarrow> sensorRays s = [])"
proof (cases "sensorsNum < 0")
  case True
  with Sensors_negative(1) [of sensorsNum] Sensors_negative(2) [of sensorsNum H D v]
  show ?thesis by simp
next
  case False
  with assms have z: "sensorsNum = 0" by simp
  then show ?thesis using Sensors_ok [of sensorsNum H D v] by simp
qed

theorem sensors_nonpositive_witness:
  "Sensors 1 10 True (- 3) = Inl RangeError
   \<and> Array_fill (- 3) Undefined = Inl RangeError"
  using sensors_nonpositive [of "- 3" 1 10 True] by simp

lemma sensorRays_timer_due: "sensorRays (timer_due wait now s) = sensorRays s"
  by (simp add: timer_due_def onSensorsCallback_def split: timer.splits)

lemma sensorRays_onRay: "sensorRays (onRay wait now index distance s) = sensorRays s"
  by (simp add: onRay_def onSensorsCallbackThrottled_def onSensorsCallback_def
      split: timer.splits)

lemma sensorRays_sample: "sensorRays (sample wait rs s) = sensorRays s"
  by (induction rs arbitrary: s) (auto simp: sensorRays_onRay sensorRays_timer_due)

lemma sensorRays_rerender:
  assumes "0 \<le> sensorsNum"
  shows "rerender H D v sensorsNum s1 = Inr s2 \<Longrightarrow>
    sensorRays s2 = map (SensorRay H D v sensorsNum) [0..<nat sensorsNum]"
  using assms by (auto simp: rerender_def Sensors_ok)

text \<open>
  C9: for every \<open>sensorsNum\<close> from \<open>1\<close> on the construction returns a ring of
  \<open>sensorsNum\<close> rays (and a distance vector of that length) with
  \<open>angleStep = 2pi/sensorsNum\<close>, where ray \<open>i\<close> has key and index \<open>i\<close>, runs from
  \<open>(0, H, 0)\<close> to \<open>(0, H, D)\<close> and has the angle \<open>angleStep * i\<close>. The ring is fixed
  for its lifetime: no report and no timer changes the rays, and a later render with the
  same props builds the same rays. And \<open>sensorsNum = 8\<close> gives 8 rays with the angles
  \<open>0, pi/4, pi/2, ..., 7pi/4\<close> in index order.
\<close>

theorem sensor_ring_geometry:
  assumes "1 \<le> sensorsNum"
  shows "(\<exists>s. Sensors H D v sensorsNum = Inr s
            \<and> length (sensorRays s) = nat sensorsNum
            \<and> length (sensorDistances s) = nat sensorsNum
            \<and> (\<forall>i < nat sensorsNum.
                 sensorRays s ! i =
                   \<lparr>ray_key = i, ray_index = i, ray_from = (0, H, 0), ray_to = (0, H, D),
                    angleX = 2 * pi / of_int sensorsNum * of_nat i, visible = v\<rparr>)
            \<and> (\<forall>wait rs T. sensorRays (timer_due wait T (sample wait rs s)) = sensorRays s)
            \<and> (\<forall>s1 s2. rerender H D v sensorsNum s1 = Inr s2 \<longrightarrow>
                  sensorRays s2 = sensorRays s))
         \<and> angleStep sensorsNum = 2 * pi / of_int sensorsNum
         \<and> (\<exists>s. Sensors H D v 8 = Inr s
              \<and> map ray_index (sensorRays s) = [0, 1, 2, 3, 4, 5, 6, 7]
              \<and> map angleX (sensorRays s) =
                  [0, pi / 4, pi / 2, 3 * pi / 4, pi, 5 * pi / 4, 3 * pi / 2, 7 * pi / 4])"
proof -
  have ring: "\<exists>s. Sensors H D v sensorsNum = Inr s
      \<and> length (sensorRays s) = nat sensorsNum
      \<and> length (sensorDistances s) = nat sensorsNum
      \<and> (\<forall>i < nat sensorsNum.
           sensorRays s ! i =
             \<lparr>ray_key = i, ray_index = i, ray_from = (0, H, 0), ray_to = (0, H, D),
              angleX = 2 * pi / of_int sensorsNum * of_nat i, visible = v\<rparr>)
      \<and> (\<forall>wait rs T. sensorRays (timer_due wait T (sample wait rs s)) = sensorRays s)
      \<and> (\<forall>s1 s2. rerender H D v sensorsNum s1 = Inr s2 \<longrightarrow> sensorRays s2 = sensorRays s)"
    using assms
    by (simp add: Sensors_ok SensorRay_def angleStep_def sensorRays_sample sensorRays_timer_due
        sensorRays_rerender)
  have upt8: "[0..<8] = [0, 1, 2, 3, 4, 5, 6, 7::nat]"
    by (simp add: upt_rec)
  have eight: "\<exists>s. Sensors H D v 8 = Inr s
      \<and> map ray_index (sensorRays s) = [0, 1, 2, 3, 4, 5, 6, 7]
      \<and> map angleX (sensorRays s) =
          [0, pi / 4, pi / 2, 3 * pi / 4, pi, 5 * pi / 4, 3 * pi / 2, 7 * pi / 4]"
    by (simp add: Sensors_ok SensorRay_def angleStep_def upt8)
  from ring eight show ?thesis
    by (simp add: angleStep_def)
qed

theorem sensor_ring_geometry_witness:
  "(\<exists>s. Sensors 1 10 False 4 = Inr s
       \<and> sensorRays s ! 3 =
           \<lparr>ray_key = 3, ray_index = 3, ray_from = (0, 1, 0), ray_to = (0, 1, 10),
            angleX = 3 * pi / 2, visible = False\<rparr>)"
proof -
  have "(3::nat) < nat 4" by simp
  with sensor_ring_geometry [of 4 1 10 False] show ?thesis
    by auto
qed


section \<open>Properties of the sampler and its throttle\<close>

lemma spaced_snoc:
  "spaced w (ts @ [t]) = (spaced w ts \<and> (ts = [] \<or> last ts + w \<le> t))"
  by (induction w ts rule: spaced.induct) auto

lemma timer_due_inv:
  "throttle_inv wait t s \<Longrightarrow> t \<le> now \<Longrightarrow> throttle_inv wait now (timer_due wait now s)"
  by (auto simp: throttle_inv_def timer_due_def onSensorsCallback_def spaced_snoc
      split: timer.splits)

lemma throttled_inv:
  "throttle_inv wait now s \<Longrightarrow> throttle_inv wait now (onSensorsCallbackThrottled wait now s)"
  by (auto simp: throttle_inv_def onSensorsCallbackThrottled_def onSensorsCallback_def
      spaced_snoc split: timer.splits)

lemma onRay_inv:
  "throttle_inv wait now s \<Longrightarrow> throttle_inv wait now (onRay wait now index distance s)"
  unfolding onRay_def by (rule throttled_inv) (simp add: throttle_inv_def split: timer.splits)

lemma sample_inv:
  "sorted (map fst rs) \<Longrightarrow> \<forall>r \<in> set rs. t \<le> fst r \<Longrightarrow> throttle_inv wait t s \<Longrightarrow>
     throttle_inv wait (last (t # map fst rs)) (sample wait rs s)"
proof (induction rs arbitrary: t s)
  case Nil
  then show ?case by simp
next
  case (Cons r rs)
  obtain now index distance where r: "r = (now, index, distance)"
    by (cases r)
  from Cons.prems r have "t \<le> now"
    by simp
  with Cons.prems(3) have "throttle_inv wait now (timer_due wait now s)"
    by (rule timer_due_inv)
  then have step: "throttle_inv wait now (onRay wait now index distance (timer_due wait now s))"
    by (rule onRay_inv)
  from Cons.prems(1) r have "sorted (map fst rs)" and "\<forall>q \<in> set rs. now \<le> fst q"
    by simp_all
  from Cons.IH [OF this step] r show ?case
    by simp
qed

lemma fresh_inv:
  "throttle s = Idle \<Longrightarrow> onSensors_calls s = [] \<Longrightarrow> throttle_inv wait 0 s"
  by (simp add: throttle_inv_def)

lemma rate_limit:
  assumes "sorted (map fst rs)" and "throttle s = Idle" and "onSensors_calls s = []"
    and "\<forall>r \<in> set rs. fst r \<le> T"
  shows "spaced wait (map fst (onSensors_calls (timer_due wait T (sample wait rs s))))"
proof -
  have "throttle_inv wait (last (0 # map fst rs)) (sample wait rs s)"
    using assms(1) fresh_inv [OF assms(2,3)] by (intro sample_inv) simp_all
  moreover have "last (0 # map fst rs) \<le> T"
    using assms(4) by (cases "rs = []") (simp_all add: last_map)
  ultimately have "throttle_inv wait T (timer_due wait T (sample wait rs s))"
    by (rule timer_due_inv)
  then show ?thesis
    by (simp add: throttle_inv_def)
qed

lemma sensorDistances_timer_due [simp]:
  "sensorDistances (timer_due wait now s) = sensorDistances s"
  by (simp add: timer_due_def onSensorsCallback_def split: timer.splits)

lemma sensorDistances_onRay:
  "sensorDistances (onRay wait now index distance s) =
     array_set (sensorDistances s) index (case distance of Some d \<Rightarrow> Number d | None \<Rightarrow> Null)"
  by (simp add: onRay_def onSensorsCallbackThrottled_def onSensorsCallback_def
      split: timer.splits)

lemma sensorDistances_sample:
  "sensorDistances (sample wait rs s) = written rs (sensorDistances s)"
  by (induction rs arbitrary: s) (auto simp: sensorDistances_onRay)

lemma onRay_idle:
  assumes "throttle s = Idle"
  shows "onSensors_calls (onRay wait now index distance s) =
           onSensors_calls s @ [(now, written [(now, index, distance)] (sensorDistances s))]"
    and "throttle (onRay wait now index distance s) = Scheduled False (now + wait)"
  using assms by (simp_all add: onRay_def onSensorsCallbackThrottled_def onSensorsCallback_def)

lemma onRay_scheduled:
  assumes "throttle s = Scheduled pending deadline"
  shows "onSensors_calls (onRay wait now index distance s) = onSensors_calls s"
    and "throttle (onRay wait now index distance s) = Scheduled True deadline"
  using assms by (simp_all add: onRay_def onSensorsCallbackThrottled_def)

lemma timer_due_early:
  assumes "throttle s = Scheduled pending deadline" and "now < deadline"
  shows "timer_due wait now s = s"
  using assms by (simp add: timer_due_def)

lemma timer_due_idle:
  assumes "throttle s = Idle"
  shows "timer_due wait now s = s"
  using assms by (simp add: timer_due_def)

lemma timer_due_trailing:
  assumes "throttle s = Scheduled True deadline" and "deadline \<le> now"
  shows "onSensors_calls (timer_due wait now s) =
           onSensors_calls s @ [(deadline, sensorDistances s)]"
  using assms by (simp add: timer_due_def onSensorsCallback_def)

lemma sample_in_window:
  assumes "throttle s = Scheduled pending deadline" and "\<forall>r \<in> set rs. fst r < deadline"
  shows "onSensors_calls (sample wait rs s) = onSensors_calls s
         \<and> throttle (sample wait rs s) = Scheduled (pending \<or> rs \<noteq> []) deadline"
  using assms
proof (induction rs arbitrary: s pending)
  case Nil
  then show ?case by simp
next
  case (Cons r rs)
  obtain now index distance where r: "r = (now, index, distance)"
    by (cases r)
  let ?s = "onRay wait now index distance (timer_due wait now s)"
  from Cons.prems r have early: "timer_due wait now s = s"
    by (simp add: timer_due_early)
  with Cons.prems(1) have calls: "onSensors_calls ?s = onSensors_calls s"
    and thr: "throttle ?s = Scheduled True deadline"
    by (simp_all add: onRay_scheduled)
  from Cons.prems(2) have "\<forall>q \<in> set rs. fst q < deadline"
    by simp
  from Cons.IH [OF thr this] calls r show ?case
    by simp
qed

lemma burst:
  assumes idle: "throttle (timer_due wait now s) = Idle"
    and window: "\<forall>r \<in> set rs. fst r < now + wait"
  shows "onSensors_calls (sample wait ((now, index, distance) # rs) s) =
           onSensors_calls (timer_due wait now s)
           @ [(now, written [(now, index, distance)] (sensorDistances s))]"
    and "throttle (sample wait ((now, index, distance) # rs) s) =
           Scheduled (rs \<noteq> []) (now + wait)"
proof -
  let ?s = "onRay wait now index distance (timer_due wait now s)"
  have thr: "throttle ?s = Scheduled False (now + wait)"
    using idle by (rule onRay_idle)
  have calls: "onSensors_calls ?s =
      onSensors_calls (timer_due wait now s)
      @ [(now, written [(now, index, distance)] (sensorDistances s))]"
    using onRay_idle(1) [OF idle, of wait now index distance] by simp
  from sample_in_window [OF thr window] calls
  show "onSensors_calls (sample wait ((now, index, distance) # rs) s) =
      onSensors_calls (timer_due wait now s)
      @ [(now, written [(now, index, distance)] (sensorDistances s))]"
    by simp
  from sample_in_window [OF thr window]
  show "throttle (sample wait ((now, index, distance) # rs) s) =
      Scheduled (rs \<noteq> []) (now + wait)"
    by simp
qed

lemma burst_trailing:
  assumes idle: "throttle (timer_due wait now s) = Idle"
    and window: "\<forall>r \<in> set rs. fst r < now + wait"
    and more: "rs \<noteq> []"
    and late: "now + wait \<le> T"
  shows "onSensors_calls (timer_due wait T (sample wait ((now, index, distance) # rs) s)) =
           onSensors_calls (timer_due wait now s)
           @ [(now, written [(now, index, distance)] (sensorDistances s)),
              (now + wait, written ((now, index, distance) # rs) (sensorDistances s))]"
proof -
  let ?s = "sample wait ((now, index, distance) # rs) s"
  have "throttle ?s = Scheduled True (now + wait)"
    using burst(2) [OF idle window] more by simp
  from timer_due_trailing [OF this late] burst(1) [OF idle window]
  show ?thesis
    by (simp only: sensorDistances_sample) simp
qed





text \<open>
  Within one render, the throttle as modelled from the spec keeps the contract of the
  spec: (1) for every sequence of reports in time order on a fresh component, with the
  timer run at a time \<open>T\<close> after them, any two consecutive calls of the consumer are at
  least one window apart; (2) a report that finds the throttle idle calls the consumer at
  once, with the vector as just written; (3) when more reports follow it inside the
  window, the consumer is called exactly once more, at the end of the window, with the
  vector after the last of them; (4) reports at \<open>0, 10, 20, 30\<close> with a window of \<open>50\<close>
  give exactly two calls, at \<open>0\<close> with the vector after the first report and at \<open>50\<close>
  with the vector after the report at \<open>30\<close>.
\<close>

lemma throttle_one_render:
  "(sorted (map fst rs) \<and> throttle s = Idle \<and> onSensors_calls s = []
      \<and> (\<forall>r \<in> set rs. fst r \<le> T) \<longrightarrow>
      spaced wait (map fst (onSensors_calls (timer_due wait T (sample wait rs s)))))
   \<and> (throttle (timer_due wait now s) = Idle \<longrightarrow>
      onSensors_calls (onRay wait now index distance (timer_due wait now s)) =
        onSensors_calls (timer_due wait now s)
        @ [(now, written [(now, index, distance)] (sensorDistances s))])
   \<and> (throttle (timer_due wait now s) = Idle \<and> qs \<noteq> []
      \<and> (\<forall>r \<in> set qs. fst r < now + wait) \<and> now + wait \<le> T \<longrightarrow>
      onSensors_calls (timer_due wait T (sample wait ((now, index, distance) # qs) s)) =
        onSensors_calls (timer_due wait now s)
        @ [(now, written [(now, index, distance)] (sensorDistances s)),
           (now + wait, written ((now, index, distance) # qs) (sensorDistances s))])
   \<and> (throttle s = Idle \<and> onSensors_calls s = [] \<and> 50 \<le> T \<longrightarrow>
      onSensors_calls
        (timer_due 50 T (sample 50 [(0, i0, d0), (10, i1, d1), (20, i2, d2), (30, i3, d3)] s)) =
        [(0, written [(0, i0, d0)] (sensorDistances s)),
         (50, written [(0, i0, d0), (10, i1, d1), (20, i2, d2), (30, i3, d3)]
                (sensorDistances s))])"
proof (intro conjI impI)
  assume "sorted (map fst rs) \<and> throttle s = Idle \<and> onSensors_calls s = []
      \<and> (\<forall>r \<in> set rs. fst r \<le> T)"
  then show "spaced wait (map fst (onSensors_calls (timer_due wait T (sample wait rs s))))"
    by (intro rate_limit) simp_all
next
  assume "throttle (timer_due wait now s) = Idle"
  from onRay_idle(1) [OF this, of wait now index distance]
  show "onSensors_calls (onRay wait now index distance (timer_due wait now s)) =
      onSensors_calls (timer_due wait now s)
      @ [(now, written [(now, index, distance)] (sensorDistances s))]"
    by simp
next
  assume a: "throttle (timer_due wait now s) = Idle \<and> qs \<noteq> []
      \<and> (\<forall>r \<in> set qs. fst r < now + wait) \<and> now + wait \<le> T"
  then show "onSensors_calls (timer_due wait T (sample wait ((now, index, distance) # qs) s)) =
      onSensors_calls (timer_due wait now s)
      @ [(now, written [(now, index, distance)] (sensorDistances s)),
         (now + wait, written ((now, index, distance) # qs) (sensorDistances s))]"
    by (intro burst_trailing) simp_all
next
  assume a: "throttle s = Idle \<and> onSensors_calls s = [] \<and> 50 \<le> T"
  then have idle: "throttle (timer_due 50 0 s) = Idle" and same: "timer_due 50 0 s = s"
    by (simp_all add: timer_due_idle)
  have "onSensors_calls
      (timer_due 50 T (sample 50 ((0, i0, d0) # [(10, i1, d1), (20, i2, d2), (30, i3, d3)]) s)) =
      onSensors_calls (timer_due 50 0 s)
      @ [(0, written [(0, i0, d0)] (sensorDistances s)),
         (0 + 50, written ((0, i0, d0) # [(10, i1, d1), (20, i2, d2), (30, i3, d3)])
            (sensorDistances s))]"
    using idle a by (intro burst_trailing) simp_all
  with same a show "onSensors_calls
      (timer_due 50 T (sample 50 [(0, i0, d0), (10, i1, d1), (20, i2, d2), (30, i3, d3)] s)) =
      [(0, written [(0, i0, d0)] (sensorDistances s)),
       (50, written [(0, i0, d0), (10, i1, d1), (20, i2, d2), (30, i3, d3)]
              (sensorDistances s))]"
    by simp
qed

text \<open>
  C1: the publish is not limited to one call per window over the life of the component.
  Every render builds a new throttle, and the first report after a render is a leading
  call whatever the throttle of the render before has done: with one ray and a window of
  \<open>50\<close>, a report at \<open>0\<close>, a render, and a report at \<open>10\<close> call the consumer at \<open>0\<close>
  and at \<open>10\<close>.
\<close>

theorem throttle_rebuilt_on_render:
  "Sensors 1 10 False 1 =
     Inr \<lparr>sensorDistances = [Undefined], sensorRays = [SensorRay 1 10 False 1 0],
          throttle = Idle, onSensors_calls = []\<rparr>
   \<and> sample 50 [(0, 0, Some 4)]
       \<lparr>sensorDistances = [Undefined], sensorRays = [SensorRay 1 10 False 1 0],
        throttle = Idle, onSensors_calls = []\<rparr> =
     \<lparr>sensorDistances = [Number 4], sensorRays = [SensorRay 1 10 False 1 0],
      throttle = Scheduled False 50, onSensors_calls = [(0, [Number 4])]\<rparr>
   \<and> rerender 1 10 False 1
       \<lparr>sensorDistances = [Number 4], sensorRays = [SensorRay 1 10 False 1 0],
        throttle = Scheduled False 50, onSensors_calls = [(0, [Number 4])]\<rparr> =
     Inr \<lparr>sensorDistances = [Number 4], sensorRays = [SensorRay 1 10 False 1 0],
          throttle = Idle, onSensors_calls = [(0, [Number 4])]\<rparr>
   \<and> onSensors_calls
       (sample 50 [(10, 0, Some 3)]
          \<lparr>sensorDistances = [Number 4], sensorRays = [SensorRay 1 10 False 1 0],
           throttle = Idle, onSensors_calls = [(0, [Number 4])]\<rparr>) =
     [(0, [Number 4]), (10, [Number 3])]
   \<and> \<not> spaced 50 [0, 10]"
  by (simp add: rerender_def Sensors_ok upt_rec onRay_def onSensorsCallbackThrottled_def
      onSensorsCallback_def timer_due_def array_set_def)












text \<open>Without a render, \<open>live\<close> is \<open>sample\<close>.\<close>

lemma live_reports:
  "live wait (map (\<lambda>(now, index, distance). Report now index distance) rs) (s, []) =
     (None, (sample wait rs s, []))"
  by (induction rs arbitrary: s) (auto simp: timers_due_def)














end
